theory Spec2Isabelle
  imports Main "HOL-Library.Word" "HOL-Library.Sublist"
begin

unbundle bit_operations_syntax

section \<open>The data of print.go\<close>

text \<open>
  Go's \<open>byte\<close> is an unsigned 8-bit integer, \<open>rune\<close> is \<open>int32\<close>, and \<open>int\<close> is taken
  at its 64-bit size. A Go \<open>string\<close> is a sequence of bytes; it is modelled by HOL's
  \<open>string\<close>, whose characters are exactly the 256 byte values. A \<open>[]byte\<close> is a list of
  8-bit words, and the conversion \<open>string(b)\<close> maps it byte by byte.
\<close>

type_synonym byte = "8 word"
type_synonym rune = "32 word"
type_synonym go_int = "64 word"
type_synonym int64 = "64 word"

definition byte_char :: "byte \<Rightarrow> char" where
  "byte_char w = char_of (unat w)"

definition string_of_bytes :: "byte list \<Rightarrow> string" where
  "string_of_bytes b = map byte_char b"

definition bytes_of_string :: "string \<Rightarrow> byte list" where
  "bytes_of_string s = map of_char s"

subsection \<open>Strings for use with buffer.WriteString (lines 14 to 29)\<close>

definition commaSpaceString :: string where
  "commaSpaceString = '', ''"

definition nilAngleString :: string where
  "nilAngleString = ''<nil>''"

definition nilParenString :: string where
  "nilParenString = ''(nil)''"

definition nilString :: string where
  "nilString = ''nil''"

definition mapString :: string where
  "mapString = ''map[''"

definition percentBangString :: string where
  "percentBangString = ''%!''"

definition missingString :: string where
  "missingString = ''(MISSING)''"

definition badIndexString :: string where
  "badIndexString = ''(BADINDEX)''"

definition panicString :: string where
  "panicString = ''(PANIC=''"

definition extraString :: string where
  "extraString = ''%!(EXTRA ''"

definition badWidthString :: string where
  "badWidthString = ''%!(BADWIDTH)''"

definition badPrecString :: string where
  "badPrecString = ''%!(BADPREC)''"

definition noVerbString :: string where
  "noVerbString = ''%!(NOVERB)''"

definition invReflectString :: string where
  "invReflectString = ''<invalid reflect.Value>''"

subsection \<open>The two library functions FormatString calls\<close>

text \<open>
  \<open>strconv.AppendInt(dst, i, 10)\<close> of Go's standard library appends the base-10 text of
  the signed 64-bit \<open>i\<close>: the library takes \<open>u = uint64(i)\<close>, negates it when \<open>i < 0\<close>,
  writes the digits of \<open>u\<close> and puts a minus sign in front of a negative value.
\<close>

fun formatDigits :: "nat \<Rightarrow> byte list" where
  "formatDigits u =
     (if u < 10 then [0x30 + of_nat u]
      else formatDigits (u div 10) @ [0x30 + of_nat (u mod 10)])"

declare formatDigits.simps [simp del]

definition AppendInt :: "byte list \<Rightarrow> int64 \<Rightarrow> byte list" where
  "AppendInt dst i =
     (if i <s 0 then dst @ 0x2D # formatDigits (unat (- i))
      else dst @ formatDigits (unat i))"

text \<open>
  \<open>utf8.AppendRune(p, r)\<close> of Go's standard library: the comparisons are on
  \<open>uint32(r)\<close> (the unsigned order of the word), the shifts \<open>r>>6\<close> are the arithmetic
  shifts of \<open>int32\<close>, \<open>byte(x)\<close> keeps the low eight bits. A value above \<open>MaxRune\<close>
  or in the surrogate range is replaced by \<open>RuneError\<close>, \<open>0xFFFD\<close>, and falls through to
  the three-byte case.
\<close>

definition AppendRune :: "byte list \<Rightarrow> rune \<Rightarrow> byte list" where
  "AppendRune p r =
    (if r \<le> 0x7F then p @ [ucast r]
     else if r \<le> 0x7FF then
       p @ [0xC0 OR ucast (signed_drop_bit 6 r), 0x80 OR (ucast r AND 0x3F)]
     else if r > 0x10FFFF \<or> (0xD800 \<le> r \<and> r \<le> 0xDFFF) then
       p @ [0xE0 OR ucast (signed_drop_bit 12 (0xFFFD :: rune)),
            0x80 OR (ucast (signed_drop_bit 6 (0xFFFD :: rune)) AND 0x3F),
            0x80 OR (ucast (0xFFFD :: rune) AND 0x3F)]
     else if r \<le> 0xFFFF then
       p @ [0xE0 OR ucast (signed_drop_bit 12 r),
            0x80 OR (ucast (signed_drop_bit 6 r) AND 0x3F),
            0x80 OR (ucast r AND 0x3F)]
     else
       p @ [0xF0 OR ucast (signed_drop_bit 18 r),
            0x80 OR (ucast (signed_drop_bit 12 r) AND 0x3F),
            0x80 OR (ucast (signed_drop_bit 6 r) AND 0x3F),
            0x80 OR (ucast r AND 0x3F)])"

subsection \<open>The interfaces (lines 34 to 61)\<close>

text \<open>
  \<open>State\<close> has four methods. \<open>Write\<close> emits to a sink of some type \<open>'s\<close> and returns the
  count and an error; \<open>Width\<close> and \<open>Precision\<close> answer with a value and whether it has been
  set; \<open>Flag\<close> answers for a character given as an \<open>int\<close>. A value of the interface is
  the record of its methods. FormatString calls \<open>Width\<close> and \<open>Precision\<close> once and
  \<open>Flag\<close> once for each flag character, so the three queries are the answers that
  it receives.
\<close>

record ('s, 'e) State =
  Write :: "byte list \<Rightarrow> 's \<Rightarrow> (go_int \<times> 'e option) \<times> 's"
  Width :: "go_int \<times> bool"
  Precision :: "go_int \<times> bool"
  Flag :: "go_int \<Rightarrow> bool"

text \<open>
  \<open>Stringer\<close> and \<open>GoStringer\<close> each have one method, without arguments, that returns a
  string; the receiver of type \<open>'v\<close> is the only input.
\<close>

record 'v Stringer =
  String :: "'v \<Rightarrow> string"

record 'v GoStringer =
  GoString :: "'v \<Rightarrow> string"

subsection \<open>FormatString (lines 69 to 86)\<close>

text \<open>
  The loop ranges over the runes of \<open>" +-#0"\<close>, an ASCII string, so each byte is one
  rune. \<open>int(c)\<close> widens the rune with its sign, \<open>byte(c)\<close> keeps its low eight bits,
  \<open>int64(w)\<close> is the identity on a 64-bit \<open>int\<close>.
\<close>

definition FormatString :: "('s, 'e) State \<Rightarrow> rune \<Rightarrow> string" where
  "FormatString state verb =
    (let b = [] @ [0x25];
         b = fold (\<lambda>c b. if Flag state (scast c) then b @ [ucast c] else b)
               (map of_char '' +-#0'' :: rune list) b;
         b = (case Width state of (w, ok) \<Rightarrow> if ok then AppendInt b w else b);
         b = (case Precision state of (p, ok) \<Rightarrow>
                if ok then AppendInt (b @ [0x2E]) p else b);
         b = AppendRune b verb
     in string_of_bytes b)"

subsection \<open>buffer (lines 89 to 105)\<close>

type_synonym buffer = "byte list"

text \<open>
  Each method replaces the buffer behind the pointer by the result of \<open>append\<close>; the
  model returns the new buffer. The method \<open>write\<close> is named \<open>buffer_write\<close> here,
  \<open>write\<close> being a command of Isabelle.
\<close>

definition buffer_write :: "buffer \<Rightarrow> byte list \<Rightarrow> buffer" where
  "buffer_write b p = b @ p"

definition writeString :: "buffer \<Rightarrow> string \<Rightarrow> buffer" where
  "writeString b s = b @ bytes_of_string s"

definition writeByte :: "buffer \<Rightarrow> byte \<Rightarrow> buffer" where
  "writeByte b c = b @ [c]"

definition writeRune :: "buffer \<Rightarrow> rune \<Rightarrow> buffer" where
  "writeRune b r = AppendRune b r"

section \<open>What the specification's words mean\<close>

text \<open>
  The decimal digits of a natural number and the signed decimal rendering of an integer,
  on characters and unbounded integers.
\<close>

definition digitChar :: "nat \<Rightarrow> char" where
  "digitChar d = ''0123456789'' ! d"

fun decimalDigits :: "nat \<Rightarrow> string" where
  "decimalDigits n =
     (if n < 10 then [digitChar n]
      else decimalDigits (n div 10) @ [digitChar (n mod 10)])"

declare decimalDigits.simps [simp del]

definition decimal :: "int \<Rightarrow> string" where
  "decimal i = (if i < 0 then CHR ''-'' # decimalDigits (nat (- i)) else decimalDigits (nat i))"

text \<open>
  The number that a string of decimal digits denotes, most significant digit first.
\<close>

definition digitsValue :: "string \<Rightarrow> nat" where
  "digitsValue s = foldl (\<lambda>a c. 10 * a + (of_char c - 48)) 0 s"

definition isDigit :: "char \<Rightarrow> bool" where
  "isDigit c \<longleftrightarrow> c \<in> set ''0123456789''"

text \<open>
  The UTF-8 encoding of a code point, by division and remainder: one byte below \<open>0x80\<close>,
  two below \<open>0x800\<close>, three below \<open>0x10000\<close>, four otherwise. It is meant for the
  Unicode scalar values, which \<open>ValidRune\<close> selects: the code points up to \<open>0x10FFFF\<close>
  outside the surrogate range.
\<close>

definition utf8_encoding :: "nat \<Rightarrow> string" where
  "utf8_encoding n =
    (if n < 0x80 then [char_of n]
     else if n < 0x800 then [char_of (0xC0 + n div 64), char_of (0x80 + n mod 64)]
     else if n < 0x10000 then
       [char_of (0xE0 + n div 4096), char_of (0x80 + n div 64 mod 64),
        char_of (0x80 + n mod 64)]
     else
       [char_of (0xF0 + n div 262144), char_of (0x80 + n div 4096 mod 64),
        char_of (0x80 + n div 64 mod 64), char_of (0x80 + n mod 64)])"

definition ValidRune :: "rune \<Rightarrow> bool" where
  "ValidRune r \<longleftrightarrow> r < 0xD800 \<or> (0xDFFF < r \<and> r \<le> 0x10FFFF)"

text \<open>
  The parts of a directive \<open>%[flags][width][.precision]verb\<close>: the set flags in the order
  space, plus, minus, hash, zero; the width's decimal text when present; a dot and the
  precision's decimal text when present; the bytes that stand for the verb.
\<close>

definition directive_flags :: "(go_int \<Rightarrow> bool) \<Rightarrow> string" where
  "directive_flags f = filter (\<lambda>c. f (of_char c)) '' +-#0''"

definition directive_width :: "go_int \<times> bool \<Rightarrow> string" where
  "directive_width w = (if snd w then decimal (sint (fst w)) else [])"

definition directive_precision :: "go_int \<times> bool \<Rightarrow> string" where
  "directive_precision p = (if snd p then CHR ''.'' # decimal (sint (fst p)) else [])"

definition directive_verb :: "rune \<Rightarrow> string" where
  "directive_verb v = utf8_encoding (if ValidRune v then unat v else 0xFFFD)"

text \<open>
  The text before the verb's code point: the result without the bytes that
  \<open>utf8.AppendRune\<close> wrote for the verb at its end.
\<close>

definition beforeVerb :: "('s, 'e) State \<Rightarrow> rune \<Rightarrow> string" where
  "beforeVerb st v =
     take (length (FormatString st v) - length (string_of_bytes (AppendRune [] v)))
       (FormatString st v)"

text \<open>
  A state with fixed answers, for the examples: \<open>Flag c\<close> holds for the characters of the
  list, in whatever order the list gives them; \<open>Write\<close> appends to a buffer and reports
  the number of bytes.
\<close>

definition stateOf :: "go_int list \<Rightarrow> go_int \<times> bool \<Rightarrow> go_int \<times> bool \<Rightarrow> (buffer, 'e) State" where
  "stateOf fs w p =
     \<lparr>Write = (\<lambda>b s. ((of_nat (length b), None), buffer_write s b)),
      Width = w, Precision = p, Flag = (\<lambda>c. c \<in> set fs)\<rparr>"

section \<open>The parts of the engine that print.go does not hold\<close>

text \<open>
  Modelled from the spec: the OptionSet of section 3, a record of the set flags, an
  optional width and an optional precision. The type that implements \<open>State\<close> and the
  parser that fills it are missing from print.go.
\<close>

record OptionSet =
  flags :: "go_int list"
  width :: "go_int option"
  precision :: "go_int option"

text \<open>
  Modelled from the spec: the FormattingContext of sections 2 and 3, which wraps one
  output sink and one OptionSet. The implementation of \<open>State\<close> is missing from
  print.go.
\<close>

record FormattingContext =
  sink :: buffer
  options :: OptionSet

text \<open>
  Modelled from the spec: the four operations of the FormattingContext surface in
  section 6, \<open>write(bytes) -> (count, error)\<close>, \<open>width() -> (int, bool)\<close>,
  \<open>precision() -> (int, bool)\<close> and \<open>flag(character) -> bool\<close>, each returning its
  answer and the context after the call. The write is a passthrough to the sink; the
  queries read the OptionSet (section 4.1). Their implementation is missing from
  print.go.
\<close>

definition ctx_write :: "FormattingContext \<Rightarrow> byte list \<Rightarrow> (go_int \<times> 'e option) \<times> FormattingContext" where
  "ctx_write c b = ((of_nat (length b), None), c\<lparr>sink := buffer_write (sink c) b\<rparr>)"

definition ctx_width :: "FormattingContext \<Rightarrow> (go_int \<times> bool) \<times> FormattingContext" where
  "ctx_width c = ((case width (options c) of None \<Rightarrow> (0, False) | Some w \<Rightarrow> (w, True)), c)"

definition ctx_precision :: "FormattingContext \<Rightarrow> (go_int \<times> bool) \<times> FormattingContext" where
  "ctx_precision c =
     ((case precision (options c) of None \<Rightarrow> (0, False) | Some p \<Rightarrow> (p, True)), c)"

definition ctx_flag :: "FormattingContext \<Rightarrow> go_int \<Rightarrow> bool \<times> FormattingContext" where
  "ctx_flag c ch = (ch \<in> set (flags (options c)), c)"

text \<open>
  Modelled from the spec: the State value that a custom renderer receives for a
  context, made of the four operations above. The code that builds it is missing from
  print.go.
\<close>

definition context_State :: "FormattingContext \<Rightarrow> (FormattingContext, 'e) State" where
  "context_State c =
     \<lparr>Write = (\<lambda>b c'. ctx_write c' b),
      Width = fst (ctx_width c), Precision = fst (ctx_precision c),
      Flag = (\<lambda>ch. fst (ctx_flag c ch))\<rparr>"

text \<open>
  Modelled from the spec: the renderer capability set of sections 2 and 3. An argument
  value may carry a full custom format capability (kept abstract, of type \<open>'f\<close>), a
  plain-string capability (a \<open>Stringer\<close>) and a syntax-form capability (a
  \<open>GoStringer\<close>). The code that inspects an argument is missing from print.go.
\<close>

record ('v, 'f) Argument =
  receiver :: 'v
  asFormatter :: "'f option"
  asStringer :: "'v Stringer option"
  asGoStringer :: "'v GoStringer option"

text \<open>
  Modelled from the spec: the outcome of the dispatcher's choice in section 4.3, one
  rendering path for each verb occurrence. The dispatcher is missing from print.go.
\<close>

datatype 'f rendering =
  FullCustom 'f | SyntaxForm string | PlainString string | BuiltIn

text \<open>
  Modelled from the spec: the precedence of section 4.3. The full custom format
  capability comes first; else the syntax-form capability, consulted only for the
  designated syntax directive, which is the verb \<open>v\<close> with the sharp flag (\<open>%#v\<close>);
  else the plain-string capability, consulted for the directives that accept a string,
  which the spec does not list and which are a parameter here, of the verb and the
  sharp flag; else the built-in renderer. The dispatcher is missing from print.go.
\<close>

definition chooseRendering :: "(rune \<Rightarrow> bool \<Rightarrow> bool) \<Rightarrow> ('v, 'f) Argument \<Rightarrow> rune \<Rightarrow> bool \<Rightarrow> 'f rendering" where
  "chooseRendering acceptsString arg verb sharp =
     (case asFormatter arg of
        Some f \<Rightarrow> FullCustom f
      | None \<Rightarrow>
          (case (if verb = 0x76 \<and> sharp then asGoStringer arg else None) of
             Some g \<Rightarrow> SyntaxForm (GoString g (receiver arg))
           | None \<Rightarrow>
               (case (if acceptsString verb sharp then asStringer arg else None) of
                  Some t \<Rightarrow> PlainString (String t (receiver arg))
                | None \<Rightarrow> BuiltIn)))"

section \<open>From the code's bytes to the specification's words\<close>

lemma byte_char_numeral [simp]: "byte_char (numeral k) = char_of (numeral k :: nat)"
proof -
  have "unat (numeral k :: byte) = (numeral k :: nat) mod 256"
    by (simp only: unat_numeral) simp
  then show ?thesis
    by (simp only: byte_char_def char_of_mod_256)
qed

lemma byte_char_digit: "d < 10 \<Longrightarrow> byte_char (0x30 + of_nat d) = digitChar d"
proof -
  assume "d < 10"
  then have "d \<in> {0,1,2,3,4,5,6,7,8,9}" by auto
  then show ?thesis
    by (auto simp: digitChar_def byte_char_def char_of_def bit_Suc_0_iff)
qed

lemma formatDigits_decimalDigits: "string_of_bytes (formatDigits n) = decimalDigits n"
proof (induction n rule: formatDigits.induct)
  case (1 u)
  show ?case
  proof (cases "u < 10")
    case True
    then show ?thesis
      by (simp add: formatDigits.simps [of u] decimalDigits.simps [of u] string_of_bytes_def byte_char_digit)
  next
    case False
    with 1 show ?thesis
      by (simp add: formatDigits.simps [of u] decimalDigits.simps [of u] string_of_bytes_def byte_char_digit)
  qed
qed

lemma uint_sint_nonneg:
  fixes i :: int64
  assumes "\<not> sint i < 0"
  shows "uint i = sint i"
proof -
  have lt: "sint i < 2 ^ 63" using sint_lt [of i] by simp
  have "uint i = sint i mod 2 ^ 64" by (simp add: uint_sint take_bit_eq_mod)
  also have "\<dots> = sint i" using assms lt by (intro mod_pos_pos_trivial) auto
  finally show ?thesis .
qed

lemma uint_sint_neg:
  fixes i :: int64
  assumes "sint i < 0"
  shows "uint i = sint i + 2 ^ 64"
proof -
  have ge: "- (2 ^ 63) \<le> sint i" using sint_ge [of i] by simp
  have "uint i = sint i mod 2 ^ 64" by (simp add: uint_sint take_bit_eq_mod)
  also have "\<dots> = (sint i + 2 ^ 64) mod 2 ^ 64" by simp
  also have "\<dots> = sint i + 2 ^ 64" using assms ge by (intro mod_pos_pos_trivial) auto
  finally show ?thesis .
qed

lemma unat_nonneg_sint:
  fixes i :: int64
  shows "\<not> sint i < 0 \<Longrightarrow> unat i = nat (sint i)"
  by (simp add: unat_eq_nat_uint uint_sint_nonneg)

lemma unat_neg_sint:
  fixes i :: int64
  assumes "sint i < 0"
  shows "unat (- i) = nat (- sint i)"
proof -
  have ge: "- (2 ^ 63) \<le> sint i" using sint_ge [of i] by simp
  have "uint (- i) = (- uint i) mod 2 ^ 64" by (simp add: uint_word_ariths)
  also have "\<dots> = (- sint i - 2 ^ 64) mod 2 ^ 64" by (simp add: uint_sint_neg [OF assms])
  also have "\<dots> = (- sint i) mod 2 ^ 64" by (metis mod_diff_right_eq mod_self diff_zero)
  also have "\<dots> = - sint i" using assms ge by (intro mod_pos_pos_trivial) auto
  finally show ?thesis by (simp add: unat_eq_nat_uint)
qed

lemma AppendInt_decimal:
  "string_of_bytes (AppendInt dst i) = string_of_bytes dst @ decimal (sint i)"
proof (cases "sint i < 0")
  case True
  then show ?thesis
    using formatDigits_decimalDigits [of "nat (- sint i)"]
    by (simp add: AppendInt_def decimal_def word_sless_alt unat_neg_sint string_of_bytes_def
        byte_char_def char_of_def bit_Suc_0_iff)
next
  case False
  then show ?thesis
    using formatDigits_decimalDigits [of "nat (sint i)"]
    by (simp add: AppendInt_def decimal_def word_sless_alt unat_nonneg_sint string_of_bytes_def)
qed

lemma or_push_bit_add:
  fixes m :: nat
  assumes "m < 2 ^ k"
  shows "push_bit k b OR m = push_bit k b + m"
proof -
  have "take_bit k m = m" using assms by (simp add: take_bit_eq_mod)
  then have "\<not> bit m n" if "k \<le> n" for n
    using that by (metis bit_take_bit_iff not_le)
  then have "\<not> bit (push_bit k b) n \<or> \<not> bit m n" for n
    by (cases "k \<le> n") (auto simp: bit_push_bit_iff)
  then show ?thesis by (rule disjunctive_add [symmetric])
qed

lemma lead2: "m < 32 \<Longrightarrow> (0xC0 :: nat) OR m = 0xC0 + m"
  using or_push_bit_add [of m 6 3] by simp

lemma lead3: "m < 16 \<Longrightarrow> (0xE0 :: nat) OR m = 0xE0 + m"
  using or_push_bit_add [of m 5 7] by simp

lemma lead4: "m < 8 \<Longrightarrow> (0xF0 :: nat) OR m = 0xF0 + m"
  using or_push_bit_add [of m 4 15] by simp

lemma cont: "(0x80 :: nat) OR (m AND 0x3F) = 0x80 + m mod 64"
proof -
  have "m AND 0x3F = take_bit 6 m"
    using take_bit_eq_mask [of 6 m] by (simp add: mask_eq_exp_minus_1)
  then have a: "m AND 0x3F = m mod 64" by (simp add: take_bit_eq_mod)
  have "m mod 64 < 2 ^ 7" using mod_less_divisor [of 64 m] by simp
  from or_push_bit_add [OF this, of 1] a show ?thesis by simp
qed

lemma unat_byte_of_rune: "unat (ucast (r :: rune) :: byte) = unat r mod 256"
  by (simp add: unsigned_ucast_eq take_bit_eq_mod)

lemma rune_top_bit:
  fixes r :: rune
  assumes "r \<le> 0x10FFFF"
  shows "\<not> bit r 31"
proof -
  from assms have "unat r < 2 ^ 31" by (simp add: word_le_nat_alt)
  then have "take_bit 31 (unat r) = unat r" by (simp add: take_bit_eq_mod)
  then have "\<not> bit (unat r) 31" by (metis bit_take_bit_iff less_irrefl)
  then show ?thesis by (simp add: bit_unsigned_iff)
qed

lemma signed_drop_bit_nonneg:
  fixes r :: rune
  assumes "\<not> bit r 31"
  shows "signed_drop_bit k r = drop_bit k r"
proof (rule bit_word_eqI)
  fix n assume "n < LENGTH(32)"
  then show "bit (signed_drop_bit k r) n = bit (drop_bit k r) n"
    using assms
    by (auto simp: bit_signed_drop_bit_iff bit_drop_bit_eq dest: bit_imp_le_length)
qed

lemma byte_char_plain:
  fixes r :: rune
  shows "r \<le> 0x7F \<Longrightarrow> byte_char (ucast r) = char_of (unat r)"
  by (simp add: byte_char_def unat_byte_of_rune)

lemma byte_char_cont:
  fixes r :: rune
  assumes "\<not> bit r 31"
  shows "byte_char (0x80 OR (ucast (signed_drop_bit k r) AND 0x3F)) = char_of (0x80 + unat r div 2 ^ k mod 64)"
proof -
  have "unat (0x80 OR (ucast (drop_bit k r) AND 0x3F) :: byte)
      = 0x80 OR (unat (ucast (drop_bit k r) :: byte) AND 0x3F)"
    by (simp add: unsigned_or_eq unsigned_and_eq)
  also have "\<dots> = 0x80 + unat (ucast (drop_bit k r) :: byte) mod 64"
    by (rule cont)
  also have "\<dots> = 0x80 + unat r div 2 ^ k mod 64"
    by (simp only: unat_byte_of_rune unat_drop_bit_eq) (simp add: drop_bit_eq_div mod_mod_cancel)
  finally show ?thesis
    by (simp add: byte_char_def signed_drop_bit_nonneg [OF assms])
qed


lemma byte_char_last:
  fixes r :: rune
  assumes "\<not> bit r 31"
  shows "byte_char (0x80 OR (ucast r AND 0x3F)) = char_of (0x80 + unat r mod 64)"
  using byte_char_cont [OF assms, of 0] by simp

lemma byte_char_lead:
  fixes r :: rune
  assumes "\<not> bit r 31" and "unat r div 2 ^ k < 2 ^ j" and "j \<le> 8"
  shows "byte_char (of_nat (push_bit j b) OR ucast (signed_drop_bit k r))
       = char_of (push_bit j b + unat r div 2 ^ k)"
proof -
  have "(2::nat) ^ j \<le> 2 ^ 8" using assms(3) by (intro power_increasing) auto
  with assms(2) have small: "unat r div 2 ^ k < 256" by simp
  have "unat (ucast (drop_bit k r) :: byte) = unat r div 2 ^ k mod 256"
    by (simp only: unat_byte_of_rune unat_drop_bit_eq) (simp add: drop_bit_eq_div)
  with small have u: "unat (ucast (drop_bit k r) :: byte) = unat r div 2 ^ k" by simp
  have "unat (of_nat (push_bit j b) OR ucast (drop_bit k r) :: byte)
      = unat (of_nat (push_bit j b) :: byte) OR unat r div 2 ^ k"
    by (simp only: unsigned_or_eq u)
  also have "\<dots> = take_bit 8 (push_bit j b) OR take_bit 8 (unat r div 2 ^ k)"
    using small by (simp add: unat_of_nat take_bit_eq_mod)
  also have "\<dots> = take_bit 8 (push_bit j b OR unat r div 2 ^ k)"
    by (simp add: take_bit_or)
  also have "\<dots> = take_bit 8 (push_bit j b + unat r div 2 ^ k)"
    by (simp only: or_push_bit_add [OF assms(2)])
  finally have "char_of (unat (of_nat (push_bit j b) OR ucast (drop_bit k r) :: byte))
      = char_of (take_bit 8 (push_bit j b + unat r div 2 ^ k))" by simp
  then show ?thesis
    by (simp add: byte_char_def signed_drop_bit_nonneg [OF assms(1)] char_of_take_bit_eq)
qed

lemma byte_char_lead2:
  fixes r :: rune
  assumes "r \<le> 0x7FF"
  shows "byte_char (0xC0 OR ucast (signed_drop_bit 6 r)) = char_of (0xC0 + unat r div 64)"
proof -
  from assms have nb: "\<not> bit r 31" by (intro rune_top_bit) (simp add: word_le_nat_alt)
  from assms have "unat r div 2 ^ 6 < 2 ^ 5" by (simp add: word_le_nat_alt)
  from byte_char_lead [OF nb this, of 6] show ?thesis by simp
qed

lemma byte_char_lead3:
  fixes r :: rune
  assumes "r \<le> 0xFFFF"
  shows "byte_char (0xE0 OR ucast (signed_drop_bit 12 r)) = char_of (0xE0 + unat r div 4096)"
proof -
  from assms have nb: "\<not> bit r 31" by (intro rune_top_bit) (simp add: word_le_nat_alt)
  from assms have "unat r div 2 ^ 12 < 2 ^ 4" by (simp add: word_le_nat_alt)
  from byte_char_lead [OF nb this, of 14] show ?thesis by simp
qed

lemma byte_char_lead4:
  fixes r :: rune
  assumes "r \<le> 0x10FFFF"
  shows "byte_char (0xF0 OR ucast (signed_drop_bit 18 r)) = char_of (0xF0 + unat r div 262144)"
proof -
  from assms have nb: "\<not> bit r 31" by (rule rune_top_bit)
  from assms have "unat r div 2 ^ 18 < 2 ^ 4" by (simp add: word_le_nat_alt)
  from byte_char_lead [OF nb this, of 15] show ?thesis by simp
qed


lemma AppendRune_utf8:
  "string_of_bytes (AppendRune p r) =
     string_of_bytes p @ utf8_encoding (if ValidRune r then unat r else 0xFFFD)"
proof -
  consider (a) "r \<le> 0x7F"
    | (b) "\<not> r \<le> 0x7F" "r \<le> 0x7FF"
    | (c) "\<not> r \<le> 0x7FF" "r > 0x10FFFF \<or> (0xD800 \<le> r \<and> r \<le> 0xDFFF)"
    | (d) "\<not> r \<le> 0x7FF" "\<not> (r > 0x10FFFF \<or> (0xD800 \<le> r \<and> r \<le> 0xDFFF))" "r \<le> 0xFFFF"
    | (e) "\<not> r \<le> 0x7FF" "\<not> (r > 0x10FFFF \<or> (0xD800 \<le> r \<and> r \<le> 0xDFFF))" "\<not> r \<le> 0xFFFF"
    by blast
  then show ?thesis
  proof cases
    case a
    then have v: "ValidRune r" and n: "unat r < 0x80"
      by (simp_all add: ValidRune_def word_le_nat_alt word_less_nat_alt)
    show ?thesis
      using a n by (simp add: AppendRune_def v utf8_encoding_def string_of_bytes_def byte_char_plain)
  next
    case b
    then have v: "ValidRune r" and n: "\<not> unat r < 0x80" "unat r < 0x800"
      by (simp_all add: ValidRune_def word_le_nat_alt word_less_nat_alt)
    from b have nb: "\<not> bit r 31" by (intro rune_top_bit) (simp add: word_le_nat_alt)
    show ?thesis
      using b n
      by (simp add: AppendRune_def v utf8_encoding_def string_of_bytes_def
          byte_char_lead2 byte_char_last [OF nb])
  next
    case c
    then have v: "\<not> ValidRune r"
      by (auto simp: ValidRune_def word_le_nat_alt word_less_nat_alt)
    have "\<not> r \<le> 0x7F" using c(1) by (simp add: word_le_nat_alt)
    then show ?thesis
      using c
      by (simp add: AppendRune_def v utf8_encoding_def string_of_bytes_def)
  next
    case d
    then have v: "ValidRune r" and n: "\<not> unat r < 0x80" "\<not> unat r < 0x800" "unat r < 0x10000"
      by (auto simp: ValidRune_def word_le_nat_alt word_less_nat_alt)
    from d have nb: "\<not> bit r 31" by (intro rune_top_bit) (simp add: word_le_nat_alt)
    have "\<not> r \<le> 0x7F" using d(1) by (simp add: word_le_nat_alt)
    then show ?thesis
      using d n
      by (auto simp: AppendRune_def v utf8_encoding_def string_of_bytes_def
          byte_char_lead3 byte_char_cont [OF nb, of 6, simplified] byte_char_last [OF nb])
  next
    case e
    then have le: "r \<le> 0x10FFFF" by (simp add: word_le_nat_alt word_less_nat_alt)
    from e have v: "ValidRune r" and n: "\<not> unat r < 0x80" "\<not> unat r < 0x800" "\<not> unat r < 0x10000"
      by (auto simp: ValidRune_def word_le_nat_alt word_less_nat_alt)
    from le have nb: "\<not> bit r 31" by (rule rune_top_bit)
    have "\<not> r \<le> 0x7F" using e(1) by (simp add: word_le_nat_alt)
    then show ?thesis
      using e n
      by (auto simp: AppendRune_def v utf8_encoding_def string_of_bytes_def
          byte_char_lead4 [OF le] byte_char_cont [OF nb, of 12, simplified]
          byte_char_cont [OF nb, of 6, simplified] byte_char_last [OF nb])
  qed
qed


lemma flag_loop:
  "string_of_bytes (fold (\<lambda>c b. if f (scast c) then b @ [ucast c] else b)
      (map of_char '' +-#0'' :: rune list) b)
   = string_of_bytes b @ directive_flags f"
  by (simp add: string_of_bytes_def directive_flags_def char_of_def bit_Suc_0_iff)

lemma FormatString_parts:
  "FormatString st v =
     CHR ''%'' # directive_flags (Flag st) @ directive_width (Width st)
       @ directive_precision (Precision st) @ directive_verb v"
proof -
  obtain w wok where W: "Width st = (w, wok)" by (cases "Width st")
  obtain p pok where P: "Precision st = (p, pok)" by (cases "Precision st")
  have dot: "string_of_bytes (b @ [0x2E]) = string_of_bytes b @ ''.''" for b
    by (simp add: string_of_bytes_def char_of_def bit_Suc_0_iff)
  have pct: "string_of_bytes [0x25] = ''%''"
    by (simp add: string_of_bytes_def char_of_def bit_Suc_0_iff)
  have loop: "string_of_bytes (fold (\<lambda>c b. if Flag st (scast c) then b @ [ucast c] else b)
      (map of_char '' +-#0'' :: rune list) [0x25]) = CHR ''%'' # directive_flags (Flag st)"
    by (simp only: flag_loop pct) simp
  show ?thesis
    unfolding FormatString_def Let_def W P prod.case AppendRune_utf8
    by (cases wok; cases pok)
      (simp_all only: if_True if_False AppendInt_decimal dot loop directive_width_def
        directive_precision_def directive_verb_def fst_conv snd_conv append_Cons append_Nil
        append_assoc append_Nil2)
qed

text \<open>
  The digits of \<open>decimalDigits\<close> denote the number, and a positive number has no
  leading zero.
\<close>

lemma digitChar_value: "d < 10 \<Longrightarrow> of_char (digitChar d) - 48 = d"
proof -
  assume "d < 10"
  then have "d \<in> {0,1,2,3,4,5,6,7,8,9}" by auto
  then show ?thesis by (auto simp: digitChar_def)
qed

lemma digitsValue_snoc: "digitsValue (s @ [c]) = 10 * digitsValue s + (of_char c - 48)"
  by (simp add: digitsValue_def)

lemma digitsValue_decimalDigits: "digitsValue (decimalDigits n) = n"
proof (induction n rule: decimalDigits.induct)
  case (1 n)
  show ?case
  proof (cases "n < 10")
    case True
    then show ?thesis
      by (simp add: decimalDigits.simps [of n] digitsValue_def digitChar_value)
  next
    case False
    with 1 show ?thesis
      by (simp add: decimalDigits.simps [of n] digitsValue_snoc digitChar_value)
  qed
qed

lemma decimalDigits_no_leading_zero: "0 < n \<Longrightarrow> hd (decimalDigits n) \<noteq> CHR ''0''"
proof (induction n rule: decimalDigits.induct)
  case (1 n)
  show ?case
  proof (cases "n < 10")
    case True
    with 1(2) have "n \<in> {1,2,3,4,5,6,7,8,9}" by auto
    then show ?thesis
      by (auto simp: decimalDigits.simps [of n] digitChar_def)
  next
    case False
    then have pos: "0 < n div 10" by simp
    have ne: "decimalDigits (n div 10) \<noteq> []"
      by (simp add: decimalDigits.simps [of "n div 10"])
    from 1(1) [OF False pos] False ne show ?thesis
      by (simp add: decimalDigits.simps [of n])
  qed
qed

lemma verb_bytes: "string_of_bytes (AppendRune [] v) = directive_verb v"
  using AppendRune_utf8 [of "[]" v] by (simp add: directive_verb_def string_of_bytes_def)

lemmas directive_eval =
  directive_flags_def directive_width_def directive_precision_def directive_verb_def
  decimal_def decimalDigits.simps digitChar_def ValidRune_def utf8_encoding_def
  char_of_def bit_Suc_0_iff stateOf_def

section \<open>FormatString\<close>

text \<open>
  Claim C1. Two states whose set flags were supplied as lists with the same elements, in
  any order, and that agree on width and precision, give the same string for the same
  verb; the set flags come right after the percent sign in the fixed order space, plus,
  minus, hash, zero, whatever the order of the list.
\<close>

theorem FormatString_canonical_flag_order:
  assumes "Flag s1 = (\<lambda>c. c \<in> set fs1)" and "Flag s2 = (\<lambda>c. c \<in> set fs2)"
    and "set fs1 = set fs2"
    and "Width s1 = Width s2" and "Precision s1 = Precision s2"
  shows "FormatString s1 v = FormatString s2 v
    \<and> FormatString s1 v =
        ''%'' @ filter (\<lambda>c. of_char c \<in> set fs1) '' +-#0''
          @ directive_width (Width s1) @ directive_precision (Precision s1)
          @ directive_verb v"
  using assms by (simp add: FormatString_parts directive_flags_def)

text \<open>
  The flags minus and plus, given as \<open>-+\<close> and as \<open>+-\<close>, both reconstruct as \<open>%+-d\<close>.
\<close>

theorem FormatString_canonical_flag_order_witness:
  "FormatString (stateOf [0x2D, 0x2B] (0, False) (0, False) :: (buffer, unit) State) 0x64
     = FormatString (stateOf [0x2B, 0x2D] (0, False) (0, False) :: (buffer, unit) State) 0x64
   \<and> FormatString (stateOf [0x2D, 0x2B] (0, False) (0, False) :: (buffer, unit) State) 0x64
     = ''%+-d''"
proof -
  let ?s1 = "stateOf [0x2D, 0x2B] (0, False) (0, False) :: (buffer, unit) State"
  let ?s2 = "stateOf [0x2B, 0x2D] (0, False) (0, False) :: (buffer, unit) State"
  have f1: "Flag ?s1 = (\<lambda>c. c \<in> set [0x2D, 0x2B])" by (simp add: stateOf_def)
  have f2: "Flag ?s2 = (\<lambda>c. c \<in> set [0x2B, 0x2D])" by (simp add: stateOf_def)
  have eq: "set [0x2D, 0x2B] = set [0x2B, 0x2D :: go_int]" by auto
  have w: "Width ?s1 = Width ?s2" and p: "Precision ?s1 = Precision ?s2"
    by (simp_all add: stateOf_def)
  from FormatString_canonical_flag_order [OF f1 f2 eq w p, of "0x64"]
  show ?thesis by (simp add: FormatString_parts directive_eval)
qed

text \<open>
  Claim C2, as stated, has the verb appended as its raw code point for every verb. A
  rune in the surrogate range is a counterexample: for the verb \<open>0xD800\<close> the result is
  the one of the verb \<open>0xFFFD\<close>, and not the percent sign followed by the three bytes
  that the encoding scheme gives for \<open>0xD800\<close>.
\<close>

theorem FormatString_raw_verb_counterexample:
  "FormatString (stateOf [] (0, False) (0, False) :: (buffer, unit) State) 0xD800
     = FormatString (stateOf [] (0, False) (0, False) :: (buffer, unit) State) 0xFFFD
   \<and> FormatString (stateOf [] (0, False) (0, False) :: (buffer, unit) State) 0xD800
     \<noteq> ''%'' @ utf8_encoding (unat (0xD800 :: rune))"
  by (simp add: FormatString_parts directive_eval)

text \<open>
  Claim C2, amended. For every state and verb the result is the percent sign, the set
  flags, the width, the precision and the verb, in that order: a present width is its
  signed decimal text, a present precision a dot and its signed decimal text, an absent
  one contributes nothing, and the verb is the UTF-8 encoding of its code point when it
  is a Unicode scalar value and the encoding of \<open>0xFFFD\<close> otherwise. With no flag set,
  width 5 and precision 2, the verb \<open>f\<close> gives \<open>%5.2f\<close>.
\<close>

theorem FormatString_shape:
  "FormatString st v =
     ''%'' @ filter (\<lambda>c. Flag st (of_char c)) '' +-#0''
       @ (if snd (Width st) then decimal (sint (fst (Width st))) else [])
       @ (if snd (Precision st) then ''.'' @ decimal (sint (fst (Precision st))) else [])
       @ utf8_encoding (if ValidRune v then unat v else 0xFFFD)
   \<and> (Width st = (5, True) \<and> Precision st = (2, True) \<and> (\<forall>c. \<not> Flag st c)
        \<longrightarrow> FormatString st 0x66 = ''%5.2f'')"
proof
  show "FormatString st v =
     ''%'' @ filter (\<lambda>c. Flag st (of_char c)) '' +-#0''
       @ (if snd (Width st) then decimal (sint (fst (Width st))) else [])
       @ (if snd (Precision st) then ''.'' @ decimal (sint (fst (Precision st))) else [])
       @ utf8_encoding (if ValidRune v then unat v else 0xFFFD)"
    by (simp only: FormatString_parts directive_flags_def directive_width_def
        directive_precision_def directive_verb_def) simp
  show "Width st = (5, True) \<and> Precision st = (2, True) \<and> (\<forall>c. \<not> Flag st c)
        \<longrightarrow> FormatString st 0x66 = ''%5.2f''"
    by (simp add: FormatString_parts directive_flags_def directive_width_def
        directive_precision_def directive_verb_def decimal_def decimalDigits.simps
        digitChar_def ValidRune_def utf8_encoding_def char_of_def bit_Suc_0_iff)
qed

theorem FormatString_shape_witness:
  "FormatString (stateOf [] (5, True) (2, True) :: (buffer, unit) State) 0x66 = ''%5.2f''"
  using FormatString_shape [of "stateOf [] (5, True) (2, True) :: (buffer, unit) State" "0x66"]
  by (simp add: directive_eval)

lemma beforeVerb_parts:
  "beforeVerb st v =
     CHR ''%'' # directive_flags (Flag st) @ directive_width (Width st)
       @ directive_precision (Precision st)"
proof -
  let ?pre = "CHR ''%'' # directive_flags (Flag st) @ directive_width (Width st)
       @ directive_precision (Precision st)"
  have "FormatString st v = ?pre @ directive_verb v"
    by (simp add: FormatString_parts)
  then show ?thesis
    by (simp only: beforeVerb_def verb_bytes) simp
qed

lemma isDigit_digitChar: "d < 10 \<Longrightarrow> isDigit (digitChar d)"
proof -
  assume "d < 10"
  then have "d \<in> {0,1,2,3,4,5,6,7,8,9}" by auto
  then show ?thesis by (auto simp: isDigit_def digitChar_def)
qed

lemma filter_isDigit_decimalDigits: "filter isDigit (decimalDigits n) = decimalDigits n"
proof (induction n rule: decimalDigits.induct)
  case (1 n)
  show ?case
  proof (cases "n < 10")
    case True
    then show ?thesis by (simp add: decimalDigits.simps [of n] isDigit_digitChar)
  next
    case False
    with 1 show ?thesis by (simp add: decimalDigits.simps [of n] isDigit_digitChar)
  qed
qed

lemma filter_isDigit_decimal: "filter isDigit (decimal i) = decimalDigits (nat \<bar>i\<bar>)"
  by (simp add: decimal_def filter_isDigit_decimalDigits isDigit_def)

lemma filter_isDigit_flags:
  "filter isDigit (directive_flags f) = (if f 0x30 then ''0'' else [])"
  by (simp add: directive_flags_def isDigit_def)

text \<open>
  Claim C5, as stated, allows no decimal digit before the verb's code point when the
  width is not present. A present precision is a counterexample, \<open>%.2f\<close> has the digit
  2 before the verb; so is the zero flag, \<open>%0d\<close> has the digit 0 before the verb.
\<close>

theorem FormatString_digits_before_verb_counterexample:
  "\<not> snd (Width (stateOf [] (0, False) (2, True) :: (buffer, unit) State))
   \<and> FormatString (stateOf [] (0, False) (2, True) :: (buffer, unit) State) 0x66 = ''%.2f''
   \<and> filter isDigit (beforeVerb (stateOf [] (0, False) (2, True) :: (buffer, unit) State) 0x66)
       = ''2''
   \<and> \<not> snd (Width (stateOf [0x30] (0, False) (0, False) :: (buffer, unit) State))
   \<and> FormatString (stateOf [0x30] (0, False) (0, False) :: (buffer, unit) State) 0x64 = ''%0d''
   \<and> filter isDigit (beforeVerb (stateOf [0x30] (0, False) (0, False) :: (buffer, unit) State) 0x64)
       = ''0''"
  by (simp add: FormatString_parts beforeVerb_parts directive_eval isDigit_def)

text \<open>
  Claim C5, amended. For every state whose width is not present, and every verb, the
  text before the verb's code point is the percent sign, the set flags and, when the
  precision is present, a dot followed by the precision's signed decimal text. So the
  only decimal digits before the verb are the zero flag, when it is set, and the digits
  of the precision, which stand after the dot; with the zero flag unset and no
  precision there is no digit before the verb.
\<close>

theorem FormatString_digits_before_verb:
  assumes "\<not> snd (Width st)"
  shows "beforeVerb st v =
      ''%'' @ filter (\<lambda>c. Flag st (of_char c)) '' +-#0''
        @ (if snd (Precision st) then ''.'' @ decimal (sint (fst (Precision st))) else [])
    \<and> filter isDigit (beforeVerb st v) =
      (if Flag st 0x30 then ''0'' else [])
        @ (if snd (Precision st) then decimalDigits (nat \<bar>sint (fst (Precision st))\<bar>) else [])"
  using assms
  by (simp add: beforeVerb_parts filter_isDigit_flags filter_isDigit_decimal
      directive_width_def directive_precision_def directive_flags_def isDigit_def)

theorem FormatString_digits_before_verb_witness:
  "beforeVerb (stateOf [0x2D, 0x23] (0, False) (0, False) :: (buffer, unit) State) 0x76 = ''%-#''
   \<and> filter isDigit (beforeVerb (stateOf [0x2D, 0x23] (0, False) (0, False) :: (buffer, unit) State) 0x76) = []
   \<and> beforeVerb (stateOf [0x30] (0, False) (- 12, True) :: (buffer, unit) State) 0x76 = ''%0.-12''
   \<and> filter isDigit (beforeVerb (stateOf [0x30] (0, False) (- 12, True) :: (buffer, unit) State) 0x76) = ''012''"
proof -
  let ?s1 = "stateOf [0x2D, 0x23] (0, False) (0, False) :: (buffer, unit) State"
  let ?s2 = "stateOf [0x30] (0, False) (- 12, True) :: (buffer, unit) State"
  have w1: "\<not> snd (Width ?s1)" and w2: "\<not> snd (Width ?s2)" by (simp_all add: stateOf_def)
  from FormatString_digits_before_verb [OF w1, of "0x76"] FormatString_digits_before_verb [OF w2, of "0x76"]
  show ?thesis by (simp add: stateOf_def decimal_def decimalDigits.simps digitChar_def isDigit_def)
qed

lemma length_decimalDigits: "n < 10 ^ k \<Longrightarrow> 0 < k \<Longrightarrow> length (decimalDigits n) \<le> k"
proof (induction n arbitrary: k rule: decimalDigits.induct)
  case (1 n)
  show ?case
  proof (cases "n < 10")
    case True
    with 1(3) show ?thesis by (simp add: decimalDigits.simps [of n])
  next
    case False
    with 1(2) have "1 < k" by (cases "k = 1") (use 1(3) in auto)
    then obtain j where k: "k = Suc j" and j: "0 < j" by (cases k) auto
    from 1(2) k have "n div 10 < 10 ^ j" by (simp add: less_mult_imp_div_less)
    with 1(1) [OF False this j] False k show ?thesis
      by (simp add: decimalDigits.simps [of n])
  qed
qed

lemma length_decimal_int64:
  fixes w :: int64
  shows "length (decimal (sint w)) \<le> 20"
proof -
  have ge: "- (2 ^ 63) \<le> sint w" using sint_ge [of w] by simp
  have lt: "sint w < 2 ^ 63" using sint_lt [of w] by simp
  have "nat \<bar>sint w\<bar> < 10 ^ 19" using ge lt by simp
  then have "length (decimalDigits (nat \<bar>sint w\<bar>)) \<le> 19"
    by (rule length_decimalDigits) simp
  then show ?thesis by (auto simp: decimal_def abs_if split: if_splits)
qed

lemma length_decimal_small:
  assumes "0 \<le> i" and "i \<le> 9999"
  shows "length (decimal i) \<le> 4"
proof -
  from assms have "nat i < 10 ^ 4" by simp
  then have "length (decimalDigits (nat i)) \<le> 4" by (rule length_decimalDigits) simp
  with assms show ?thesis by (simp add: decimal_def)
qed

lemma length_directive_flags: "length (directive_flags f) \<le> 5"
  using length_filter_le [of "\<lambda>c. f (of_char c)" "'' +-#0''"]
  by (simp add: directive_flags_def)

lemma length_directive_verb: "length (directive_verb v) \<le> 4"
  by (simp add: directive_verb_def utf8_encoding_def)

lemma length_directive_verb_single: "v \<le> 0x7F \<Longrightarrow> length (directive_verb v) = 1"
  by (simp add: directive_verb_def utf8_encoding_def ValidRune_def word_le_nat_alt word_less_nat_alt)

text \<open>
  Claim C8, as stated, has the result longer than 16 bytes only for a verb of several
  bytes. All five flags, width 1000 and precision 10000 with the one-byte verb \<open>d\<close> are
  a counterexample: the result has 17 bytes.
\<close>

theorem FormatString_scratch_buffer_counterexample:
  "FormatString (stateOf [0x20, 0x2B, 0x2D, 0x23, 0x30] (1000, True) (10000, True)
       :: (buffer, unit) State) 0x64 = ''% +-#01000.10000d''
   \<and> length (FormatString (stateOf [0x20, 0x2B, 0x2D, 0x23, 0x30] (1000, True) (10000, True)
       :: (buffer, unit) State) 0x64) = 17
   \<and> (0x64 :: rune) \<le> 0x7F
   \<and> length (string_of_bytes (AppendRune [] (0x64 :: rune))) = 1"
  by (simp add: FormatString_parts verb_bytes directive_eval)

text \<open>
  Claim C8, amended. The 16 bytes of the local buffer are not the worst case: the result
  has at most 51 bytes (the percent sign, five flags, twenty characters of a 64-bit
  width, a dot and twenty characters of a precision, four bytes of a verb). It has at
  most 16 bytes, so that the buffer does not grow, for every verb of one byte when the
  width and the precision, where present, are between 0 and 9999.
\<close>

theorem FormatString_length_bounds:
  "length (FormatString st v) \<le> 51
   \<and> ((snd (Width st) \<longrightarrow> 0 \<le> sint (fst (Width st)) \<and> sint (fst (Width st)) \<le> 9999)
      \<and> (snd (Precision st) \<longrightarrow>
            0 \<le> sint (fst (Precision st)) \<and> sint (fst (Precision st)) \<le> 9999)
      \<and> v \<le> 0x7F
      \<longrightarrow> length (FormatString st v) \<le> 16)"
proof
  have w: "length (directive_width (Width st)) \<le> 20"
    using length_decimal_int64 [of "fst (Width st)"] by (simp add: directive_width_def)
  have p: "length (directive_precision (Precision st)) \<le> 21"
    using length_decimal_int64 [of "fst (Precision st)"] by (simp add: directive_precision_def)
  show "length (FormatString st v) \<le> 51"
    using w p length_directive_flags [of "Flag st"] length_directive_verb [of v]
    by (simp add: FormatString_parts)
  show "(snd (Width st) \<longrightarrow> 0 \<le> sint (fst (Width st)) \<and> sint (fst (Width st)) \<le> 9999)
      \<and> (snd (Precision st) \<longrightarrow>
            0 \<le> sint (fst (Precision st)) \<and> sint (fst (Precision st)) \<le> 9999)
      \<and> v \<le> 0x7F
      \<longrightarrow> length (FormatString st v) \<le> 16"
  proof
    assume a: "(snd (Width st) \<longrightarrow> 0 \<le> sint (fst (Width st)) \<and> sint (fst (Width st)) \<le> 9999)
      \<and> (snd (Precision st) \<longrightarrow>
            0 \<le> sint (fst (Precision st)) \<and> sint (fst (Precision st)) \<le> 9999)
      \<and> v \<le> 0x7F"
    have w4: "length (directive_width (Width st)) \<le> 4"
      using a length_decimal_small [of "sint (fst (Width st))"] by (simp add: directive_width_def)
    have p5: "length (directive_precision (Precision st)) \<le> 5"
      using a length_decimal_small [of "sint (fst (Precision st))"]
      by (simp add: directive_precision_def)
    from a have "length (directive_verb v) = 1" by (simp add: length_directive_verb_single)
    with w4 p5 length_directive_flags [of "Flag st"]
    show "length (FormatString st v) \<le> 16" by (simp add: FormatString_parts)
  qed
qed

theorem FormatString_length_bounds_witness:
  "length (FormatString (stateOf [0x20, 0x2B, 0x2D, 0x23, 0x30] (9999, True) (9999, True)
       :: (buffer, unit) State) 0x64) \<le> 16
   \<and> FormatString (stateOf [0x20, 0x2B, 0x2D, 0x23, 0x30] (9999, True) (9999, True)
       :: (buffer, unit) State) 0x64 = ''% +-#09999.9999d''"
  using FormatString_length_bounds
    [of "stateOf [0x20, 0x2B, 0x2D, 0x23, 0x30] (9999, True) (9999, True) :: (buffer, unit) State"
        "0x64"]
  by (simp add: FormatString_parts directive_eval)

text \<open>
  Claim C9. The result depends only on the verb, on the answers of \<open>Width\<close> and
  \<open>Precision\<close>, and on the answers of \<open>Flag\<close> for space, plus, minus, hash and zero:
  two states that agree on these give the same string, and the answer of \<open>Flag\<close> for
  any other character does not change the result.
\<close>

theorem FormatString_depends_only_on_queries:
  assumes "\<forall>c \<in> {0x20, 0x2B, 0x2D, 0x23, 0x30}. Flag s1 c = Flag s2 c"
    and "Width s1 = Width s2" and "Precision s1 = Precision s2"
  shows "FormatString s1 v = FormatString s2 v
    \<and> (c \<notin> {0x20, 0x2B, 0x2D, 0x23, 0x30} \<longrightarrow>
         FormatString (s1\<lparr>Flag := (Flag s1)(c := True)\<rparr>) v
           = FormatString (s1\<lparr>Flag := (Flag s1)(c := False)\<rparr>) v)"
  using assms by (simp add: FormatString_parts directive_flags_def)

text \<open>
  A state that also answers true for the letter \<open>A\<close> gives \<open>%+7s\<close>, as the state
  without it does.
\<close>

theorem FormatString_depends_only_on_queries_witness:
  "FormatString (stateOf [0x2B, 0x41] (7, True) (0, False) :: (buffer, unit) State) 0x73
     = FormatString (stateOf [0x2B] (7, True) (0, False) :: (buffer, unit) State) 0x73
   \<and> FormatString (stateOf [0x2B, 0x41] (7, True) (0, False) :: (buffer, unit) State) 0x73
     = ''%+7s''"
proof -
  let ?s1 = "stateOf [0x2B, 0x41] (7, True) (0, False) :: (buffer, unit) State"
  let ?s2 = "stateOf [0x2B] (7, True) (0, False) :: (buffer, unit) State"
  have f: "\<forall>c \<in> {0x20, 0x2B, 0x2D, 0x23, 0x30}. Flag ?s1 c = Flag ?s2 c"
    by (simp add: stateOf_def)
  have w: "Width ?s1 = Width ?s2" and p: "Precision ?s1 = Precision ?s2"
    by (simp_all add: stateOf_def)
  from FormatString_depends_only_on_queries [OF f w p, of "0x73" "0x41"]
  show ?thesis by (simp add: FormatString_parts directive_eval)
qed

text \<open>
  Claim C10, as stated, calls the text written for a negative width not a well-formed
  directive. Its own example is a counterexample: width -5 with no flag set gives
  \<open>%-5d\<close>, which is also the text of the minus flag with the width 5, a state whose
  width is not negative.
\<close>

theorem FormatString_negative_width_counterexample:
  "FormatString (stateOf [] (- 5, True) (0, False) :: (buffer, unit) State) 0x64 = ''%-5d''
   \<and> FormatString (stateOf [0x2D] (5, True) (0, False) :: (buffer, unit) State) 0x64 = ''%-5d''
   \<and> 0 \<le> sint (fst (Width (stateOf [0x2D] (5, True) (0, False) :: (buffer, unit) State)))"
  by (simp add: FormatString_parts directive_eval)

lemma sint_uminus:
  fixes w :: int64
  assumes "- (2 ^ 63) < sint w" and "sint w < 0"
  shows "sint (- w) = - sint w"
proof -
  have "sint (- w) = signed_take_bit 63 (- sint w)"
    by (simp add: sint_word_ariths)
  also have "\<dots> = - sint w"
    using assms by (intro signed_take_bit_int_eq_self) auto
  finally show ?thesis .
qed

text \<open>
  Claim C10, amended. FormatString checks no range: a negative width reported as present
  is written as a minus sign and the decimal digits of its magnitude, between the flags
  and the precision, and a negative precision likewise after the dot. Width -5 with no
  flag set gives \<open>%-5\<close> before the precision and the verb. Such text can be a
  well-formed directive: when the minus, hash and zero flags are not set, a negative
  width above the least 64-bit value gives the same text as the minus flag with the
  width's magnitude.
\<close>

theorem FormatString_negative_width_precision:
  "(Width st = (w, True) \<and> sint w < 0 \<longrightarrow>
      FormatString st v =
        ''%'' @ directive_flags (Flag st) @ (CHR ''-'' # decimalDigits (nat (- sint w)))
          @ directive_precision (Precision st) @ directive_verb v)
   \<and> (Precision st = (p, True) \<and> sint p < 0 \<longrightarrow>
      FormatString st v =
        ''%'' @ directive_flags (Flag st) @ directive_width (Width st)
          @ (CHR ''.'' # CHR ''-'' # decimalDigits (nat (- sint p))) @ directive_verb v)
   \<and> (Width st = (- 5, True) \<and> (\<forall>c. \<not> Flag st c) \<longrightarrow>
      FormatString st v = ''%-5'' @ directive_precision (Precision st) @ directive_verb v)
   \<and> (Width st = (w, True) \<and> sint w < 0 \<and> - (2 ^ 63) < sint w
        \<and> \<not> Flag st 0x2D \<and> \<not> Flag st 0x23 \<and> \<not> Flag st 0x30 \<longrightarrow>
      FormatString st v
        = FormatString (st\<lparr>Width := (- w, True), Flag := (Flag st)(0x2D := True)\<rparr>) v)"
  by (auto simp: FormatString_parts directive_flags_def directive_width_def
      directive_precision_def decimal_def decimalDigits.simps digitChar_def sint_uminus)

theorem FormatString_negative_width_precision_witness:
  "FormatString (stateOf [] (- 5, True) (0, False) :: (buffer, unit) State) 0x64 = ''%-5d''
   \<and> FormatString (stateOf [0x2D] (0, False) (- 12, True) :: (buffer, unit) State) 0x66
       = ''%-.-12f''
   \<and> FormatString (stateOf [0x2B] (- 5, True) (2, True) :: (buffer, unit) State) 0x66
       = FormatString (stateOf [0x2B, 0x2D] (5, True) (2, True) :: (buffer, unit) State) 0x66"
  using FormatString_negative_width_precision
      [of "stateOf [] (- 5, True) (0, False) :: (buffer, unit) State" "- 5" "0x64" 0]
    FormatString_negative_width_precision
      [of "stateOf [0x2D] (0, False) (- 12, True) :: (buffer, unit) State" 0 "0x66" "- 12"]
    FormatString_negative_width_precision
      [of "stateOf [0x2B] (- 5, True) (2, True) :: (buffer, unit) State" "- 5" "0x66" 0]
  by (simp add: FormatString_parts directive_eval)

section \<open>The literal strings\<close>

text \<open>
  Claim C3. The twelve reserved diagnostic fragments have exactly the stated texts,
  byte for byte: \<open><nil>\<close>, \<open>(nil)\<close>, \<open>nil\<close>, \<open>map[\<close>, \<open>%!\<close>, \<open>(MISSING)\<close>,
  \<open>(BADINDEX)\<close>, \<open>(PANIC=\<close>, \<open>%!(EXTRA \<close> with its final space, \<open>%!(BADWIDTH)\<close>,
  \<open>%!(BADPREC)\<close> and \<open>%!(NOVERB)\<close>. The second half of the statement gives the bytes.
\<close>

theorem literal_fragments:
  "nilAngleString = ''<nil>'' \<and> nilParenString = ''(nil)'' \<and> nilString = ''nil''
   \<and> mapString = ''map['' \<and> percentBangString = ''%!'' \<and> missingString = ''(MISSING)''
   \<and> badIndexString = ''(BADINDEX)'' \<and> panicString = ''(PANIC=''
   \<and> extraString = ''%!(EXTRA '' \<and> badWidthString = ''%!(BADWIDTH)''
   \<and> badPrecString = ''%!(BADPREC)'' \<and> noVerbString = ''%!(NOVERB)''
   \<and> map bytes_of_string
        [nilAngleString, nilParenString, nilString, mapString, percentBangString,
         missingString, badIndexString, panicString, extraString, badWidthString,
         badPrecString, noVerbString]
     = [[0x3C, 0x6E, 0x69, 0x6C, 0x3E],
        [0x28, 0x6E, 0x69, 0x6C, 0x29],
        [0x6E, 0x69, 0x6C],
        [0x6D, 0x61, 0x70, 0x5B],
        [0x25, 0x21],
        [0x28, 0x4D, 0x49, 0x53, 0x53, 0x49, 0x4E, 0x47, 0x29],
        [0x28, 0x42, 0x41, 0x44, 0x49, 0x4E, 0x44, 0x45, 0x58, 0x29],
        [0x28, 0x50, 0x41, 0x4E, 0x49, 0x43, 0x3D],
        [0x25, 0x21, 0x28, 0x45, 0x58, 0x54, 0x52, 0x41, 0x20],
        [0x25, 0x21, 0x28, 0x42, 0x41, 0x44, 0x57, 0x49, 0x44, 0x54, 0x48, 0x29],
        [0x25, 0x21, 0x28, 0x42, 0x41, 0x44, 0x50, 0x52, 0x45, 0x43, 0x29],
        [0x25, 0x21, 0x28, 0x4E, 0x4F, 0x56, 0x45, 0x52, 0x42, 0x29]]"
  by (simp add: nilAngleString_def nilParenString_def nilString_def mapString_def
      percentBangString_def missingString_def badIndexString_def panicString_def
      extraString_def badWidthString_def badPrecString_def noVerbString_def
      bytes_of_string_def)

section \<open>The buffer\<close>

text \<open>
  Claim C6, as stated, has writeRune append the UTF-8 encoding of the given code point
  in every call. The surrogate code point \<open>0xD800\<close> is a counterexample: writeRune
  appends the bytes EF BF BD, which encode \<open>0xFFFD\<close>, and not the three bytes that the
  encoding scheme gives for \<open>0xD800\<close>.
\<close>

theorem writeRune_counterexample:
  "writeRune [] 0xD800 = [0xEF, 0xBF, 0xBD]
   \<and> writeRune [] 0xD800 = writeRune [] 0xFFFD
   \<and> string_of_bytes (writeRune [] 0xD800) \<noteq> utf8_encoding (unat (0xD800 :: rune))"
  by (simp add: writeRune_def AppendRune_def utf8_encoding_def string_of_bytes_def
      char_of_def bit_Suc_0_iff)


lemma AppendRune_append: "AppendRune p r = p @ AppendRune [] r"
  by (simp add: AppendRune_def)

text \<open>
  Claim C6, amended. The sink is append-only: after a call to write, writeString,
  writeByte or writeRune the previous contents are an unchanged prefix of the new
  contents, followed by the given bytes, the bytes of the string, the byte, or the bytes
  of the rune. The bytes of the rune are the UTF-8 encoding of the given code point when
  it is a Unicode scalar value, and the encoding of \<open>0xFFFD\<close> otherwise.
\<close>

theorem buffer_append_only:
  "buffer_write b p = b @ p \<and> writeString b s = b @ bytes_of_string s
   \<and> writeByte b c = b @ [c] \<and> writeRune b r = b @ writeRune [] r
   \<and> prefix b (buffer_write b p) \<and> prefix b (writeString b s)
   \<and> prefix b (writeByte b c) \<and> prefix b (writeRune b r)
   \<and> string_of_bytes (writeRune [] r)
       = utf8_encoding (if ValidRune r then unat r else 0xFFFD)"
proof -
  have a: "writeRune b r = b @ writeRune [] r"
    using AppendRune_append [of b r] by (simp add: writeRune_def)
  have "prefix b (b @ writeRune [] r)" by simp
  with a have p: "prefix b (writeRune b r)" by simp
  have e: "string_of_bytes (writeRune [] r)
       = utf8_encoding (if ValidRune r then unat r else 0xFFFD)"
    using verb_bytes [of r] by (simp add: writeRune_def directive_verb_def)
  show ?thesis
    using a p e by (simp add: buffer_write_def writeString_def writeByte_def)
qed

theorem buffer_append_only_witness:
  "writeRune (writeByte (writeString (buffer_write [] [0x25, 0x21]) ''(PANIC='') 0x20) 0x20AC
     = [0x25, 0x21, 0x28, 0x50, 0x41, 0x4E, 0x49, 0x43, 0x3D, 0x20, 0xE2, 0x82, 0xAC]
   \<and> string_of_bytes (writeRune [] 0x20AC) = utf8_encoding 0x20AC"
  using buffer_append_only [of "[]" "[0x25, 0x21]" "''(PANIC=''" "0x20" "0x20AC"]
    buffer_append_only [of "[0x25, 0x21]" "[]" "''(PANIC=''" "0x20" "0x20AC"]
  by (simp add: buffer_write_def writeString_def writeByte_def writeRune_def AppendRune_def
      bytes_of_string_def ValidRune_def)

section \<open>The interfaces, against the modelled engine\<close>

text \<open>
  Claim C4. The context passed to custom renderers has exactly four operations: Write,
  which returns a count and an error, Width and Precision, which return a value and
  whether it is present, and Flag, which returns a boolean. The three queries are pure:
  each returns the context it was given, sink included, and reports an absent width or
  precision as a pair whose second component is false, not as a failure. The State
  record of the source has these four fields and no other; the queries are those of
  the context modelled from the specification.
\<close>

theorem State_queries_pure:
  "snd (ctx_width c) = c \<and> snd (ctx_precision c) = c \<and> snd (ctx_flag c ch) = c
   \<and> sink (snd (ctx_width c)) = sink c \<and> sink (snd (ctx_precision c)) = sink c
   \<and> sink (snd (ctx_flag c ch)) = sink c
   \<and> (width (options c) = None \<longrightarrow> \<not> snd (fst (ctx_width c)))
   \<and> (width (options c) = Some w \<longrightarrow> fst (ctx_width c) = (w, True))
   \<and> (precision (options c) = None \<longrightarrow> \<not> snd (fst (ctx_precision c)))
   \<and> (precision (options c) = Some p \<longrightarrow> fst (ctx_precision c) = (p, True))
   \<and> (fst (ctx_flag c ch) \<longleftrightarrow> ch \<in> set (flags (options c)))
   \<and> options (snd (ctx_write c b :: (go_int \<times> 'e option) \<times> FormattingContext)) = options c
   \<and> Width (context_State c :: (FormattingContext, 'e) State) = fst (ctx_width c)
   \<and> Precision (context_State c :: (FormattingContext, 'e) State) = fst (ctx_precision c)
   \<and> Flag (context_State c :: (FormattingContext, 'e) State) ch = fst (ctx_flag c ch)
   \<and> Write (context_State c :: (FormattingContext, 'e) State) b c = ctx_write c b
   \<and> (st :: ('s, 'e) State)
       = \<lparr>Write = Write st, Width = Width st, Precision = Precision st, Flag = Flag st\<rparr>"
  by (simp add: ctx_width_def ctx_precision_def ctx_flag_def ctx_write_def context_State_def)

theorem State_queries_pure_witness:
  "ctx_width \<lparr>sink = [0x25], options = \<lparr>flags = [0x2B], width = None, precision = Some 2\<rparr>\<rparr>
     = ((0, False), \<lparr>sink = [0x25], options = \<lparr>flags = [0x2B], width = None, precision = Some 2\<rparr>\<rparr>)
   \<and> ctx_precision \<lparr>sink = [0x25], options = \<lparr>flags = [0x2B], width = None, precision = Some 2\<rparr>\<rparr>
     = ((2, True), \<lparr>sink = [0x25], options = \<lparr>flags = [0x2B], width = None, precision = Some 2\<rparr>\<rparr>)
   \<and> ctx_flag \<lparr>sink = [0x25], options = \<lparr>flags = [0x2B], width = None, precision = Some 2\<rparr>\<rparr> 0x2B
     = (True, \<lparr>sink = [0x25], options = \<lparr>flags = [0x2B], width = None, precision = Some 2\<rparr>\<rparr>)"
  using State_queries_pure
    [of "\<lparr>sink = [0x25], options = \<lparr>flags = [0x2B], width = None, precision = Some 2\<rparr>\<rparr>"
        "0x2B" 0 2 "[]" "stateOf [] (0, False) (0, False) :: (buffer, unit) State"]
  by (simp add: ctx_width_def ctx_precision_def ctx_flag_def)

text \<open>
  Claim C7. A value opts into plain-string rendering with a \<open>Stringer\<close>, one method
  without arguments that returns a string, used for the verbs that accept a string, and
  into syntax-form rendering with a \<open>GoStringer\<close>, a separate method of the same shape.
  The syntax form is chosen only for the directive \<open>%#v\<close>, the verb \<open>v\<close> with the
  sharp flag, and is then the result of the value's \<open>GoString\<close>; the plain string is
  the result of the value's \<open>String\<close>. The dispatcher is the one modelled from the
  specification.
\<close>

theorem chooseRendering_capabilities:
  "(chooseRendering acc arg verb sharp = SyntaxForm s \<longrightarrow>
      verb = 0x76 \<and> sharp \<and> (\<exists>g. asGoStringer arg = Some g \<and> s = GoString g (receiver arg)))
   \<and> (chooseRendering acc arg verb sharp = PlainString s \<longrightarrow>
      acc verb sharp \<and> (\<exists>t. asStringer arg = Some t \<and> s = String t (receiver arg)))
   \<and> (asFormatter arg = None \<and> verb = 0x76 \<and> sharp \<and> asGoStringer arg = Some g \<longrightarrow>
      chooseRendering acc arg verb sharp = SyntaxForm (GoString g (receiver arg)))
   \<and> (asFormatter arg = None \<and> \<not> (verb = 0x76 \<and> sharp) \<and> acc verb sharp \<and> asStringer arg = Some t \<longrightarrow>
      chooseRendering acc arg verb sharp = PlainString (String t (receiver arg)))"
  by (auto simp: chooseRendering_def split: option.splits if_splits)

theorem chooseRendering_capabilities_witness:
  "chooseRendering (\<lambda>v sharp. v \<in> {0x76, 0x73} \<and> \<not> sharp)
      \<lparr>receiver = (7 :: nat), asFormatter = (None :: unit option),
       asStringer = Some \<lparr>String = (\<lambda>n. ''seven'')\<rparr>,
       asGoStringer = Some \<lparr>GoString = (\<lambda>n. ''Num(7)'')\<rparr>\<rparr> 0x76 True
     = SyntaxForm ''Num(7)''
   \<and> chooseRendering (\<lambda>v sharp. v \<in> {0x76, 0x73} \<and> \<not> sharp)
      \<lparr>receiver = (7 :: nat), asFormatter = (None :: unit option),
       asStringer = Some \<lparr>String = (\<lambda>n. ''seven'')\<rparr>,
       asGoStringer = Some \<lparr>GoString = (\<lambda>n. ''Num(7)'')\<rparr>\<rparr> 0x73 False
     = PlainString ''seven''"
  using chooseRendering_capabilities
    [of "\<lambda>v sharp. v \<in> {0x76, 0x73} \<and> \<not> sharp"
        "\<lparr>receiver = (7 :: nat), asFormatter = (None :: unit option),
          asStringer = Some \<lparr>String = (\<lambda>n. ''seven'')\<rparr>,
          asGoStringer = Some \<lparr>GoString = (\<lambda>n. ''Num(7)'')\<rparr>\<rparr>"
        "0x76" True "''Num(7)''" "\<lparr>GoString = (\<lambda>n. ''Num(7)'')\<rparr>" "\<lparr>String = (\<lambda>n. ''seven'')\<rparr>"]
    chooseRendering_capabilities
    [of "\<lambda>v sharp. v \<in> {0x76, 0x73} \<and> \<not> sharp"
        "\<lparr>receiver = (7 :: nat), asFormatter = (None :: unit option),
          asStringer = Some \<lparr>String = (\<lambda>n. ''seven'')\<rparr>,
          asGoStringer = Some \<lparr>GoString = (\<lambda>n. ''Num(7)'')\<rparr>\<rparr>"
        "0x73" False "''seven''" "\<lparr>GoString = (\<lambda>n. ''Num(7)'')\<rparr>" "\<lparr>String = (\<lambda>n. ''seven'')\<rparr>"]
  by (simp add: chooseRendering_def)

end
